theory Spec2Isabelle
  imports Complex_Main "HOL-Library.Multiset"
begin

section \<open>Data model (types.ts, animationEffects.ts)\<close>

text \<open>
  JavaScript numbers are modelled as real numbers: every numeric input is a finite number
  and arithmetic is exact, where the machine rounds each result to a double. Two places are
  modelled more closely. The division by \<open>spec.duration\<close> in \<open>interpolateFrame\<close>, which
  can leave the finite numbers, has its IEEE results (\<open>jsnum\<close> below). The product and
  the quotient in \<open>handleExport\<close>, where the rounding decides the number of frames, are
  parameters (\<open>NumberOps\<close> below).

  Field names carry a prefix, since \<open>x\<close>, \<open>y\<close>, \<open>id\<close> and \<open>from\<close> cannot be record fields.
\<close>

record Photo =
  photo_id :: string
  photo_url :: string
  photo_x :: real
  photo_y :: real
  photo_rotation :: real
  photo_zIndex :: real
  photo_scale :: real
  photo_width :: "real option"
  photo_height :: "real option"
  photo_timestamp :: real

datatype AnimationEffect = Sequential | Shuffle | Flip | Fade

text \<open>\<open>Omit<PhotoAnimState, "id">\<close>: the six numeric fields of a visual state.\<close>

record AnimFields =
  st_x :: real
  st_y :: real
  st_rotation :: real
  st_opacity :: real
  st_scale :: real
  st_rotateY :: real

text \<open>\<open>PhotoAnimState\<close>: the six fields and the photo's id.\<close>

record PhotoAnimState =
  ps_id :: string
  ps_x :: real
  ps_y :: real
  ps_rotation :: real
  ps_opacity :: real
  ps_scale :: real
  ps_rotateY :: real

record PhotoEnterSpec =
  photoId :: string
  spec_from :: AnimFields
  spec_to :: AnimFields
  delay :: real
  duration :: real

record EffectPlan =
  specs :: "PhotoEnterSpec list"
  totalDuration :: real

section \<open>Effect planner (buildEffectPlan)\<close>

definition defaultFrom :: AnimFields where
  "defaultFrom = \<lparr>st_x = 0, st_y = 0, st_rotation = 0, st_opacity = 1, st_scale = 1,
     st_rotateY = 0\<rparr>"

definition toState :: "Photo \<Rightarrow> AnimFields" where
  "toState photo = \<lparr>st_x = photo_x photo, st_y = photo_y photo,
     st_rotation = photo_rotation photo, st_opacity = 1, st_scale = photo_scale photo,
     st_rotateY = 0\<rparr>"

text \<open>The callbacks of the four \<open>sorted.forEach((photo, i) => specs.push(...))\<close> loops.\<close>

definition sequentialSpec :: "nat \<Rightarrow> Photo \<Rightarrow> PhotoEnterSpec" where
  "sequentialSpec i photo =
     \<lparr>photoId = photo_id photo,
      spec_from = defaultFrom\<lparr>st_x := photo_x photo, st_y := - 350,
        st_rotation := photo_rotation photo * (1 / 2), st_opacity := 0,
        st_scale := photo_scale photo * (8 / 10), st_rotateY := 0\<rparr>,
      spec_to = toState photo,
      delay = real i * (35 / 100),
      duration = 8 / 10\<rparr>"

definition shuffleSpec :: "real \<Rightarrow> real \<Rightarrow> nat \<Rightarrow> Photo \<Rightarrow> PhotoEnterSpec" where
  "shuffleSpec cx cy i photo =
     \<lparr>photoId = photo_id photo,
      spec_from = (toState photo)\<lparr>st_x := cx, st_y := cy,
        st_rotation := (if i mod 2 = 0 then 1 else - 1) * (real i * 3), st_opacity := 0,
        st_scale := photo_scale photo * (9 / 10), st_rotateY := 0\<rparr>,
      spec_to = toState photo,
      delay = 1 / 2 + real i * (12 / 100),
      duration = 7 / 10\<rparr>"

definition flipSpec :: "nat \<Rightarrow> Photo \<Rightarrow> PhotoEnterSpec" where
  "flipSpec i photo =
     \<lparr>photoId = photo_id photo,
      spec_from = (toState photo)\<lparr>st_opacity := 0,
        st_scale := photo_scale photo * (9 / 10), st_rotateY := 90\<rparr>,
      spec_to = toState photo,
      delay = real i * (3 / 10),
      duration = 6 / 10\<rparr>"

definition fadeSpec :: "nat \<Rightarrow> Photo \<Rightarrow> PhotoEnterSpec" where
  "fadeSpec i photo =
     \<lparr>photoId = photo_id photo,
      spec_from = (toState photo)\<lparr>st_opacity := 0,
        st_scale := photo_scale photo * (7 / 10), st_rotateY := 0\<rparr>,
      spec_to = toState photo,
      delay = real i * (28 / 100),
      duration = 7 / 10\<rparr>"

text \<open>\<open>forEach\<close> with the element's index, pushing one spec per element.\<close>

definition forEachSpec :: "(nat \<Rightarrow> Photo \<Rightarrow> PhotoEnterSpec) \<Rightarrow> Photo list \<Rightarrow> PhotoEnterSpec list"
  where
  "forEachSpec f sortedPhotos = map (\<lambda>(i, photo). f i photo) (enumerate 0 sortedPhotos)"

text \<open>
  The body of \<open>buildEffectPlan\<close> after the sort. \<open>sorted.length - 1\<close> is a subtraction of
  numbers (it is \<open>-1\<close> for the empty array), so it is taken over the reals.
  \<open>sortedPhotos\<close> is the source's \<open>sorted\<close>. The delays and \<open>totalDuration\<close> are the
  exact values of the source's expressions; the machine's doubles can differ from them in
  the last place (\<open>20 * 0.28 + 0.7\<close> is \<open>6.300000000000001\<close>), so nothing below rests on
  how a \<open>totalDuration\<close> compares with a sum of a delay and a duration.
\<close>

fun planOfSorted :: "Photo list \<Rightarrow> AnimationEffect \<Rightarrow> real \<Rightarrow> real \<Rightarrow> EffectPlan" where
  "planOfSorted sortedPhotos Sequential containerWidth containerHeight =
     \<lparr>specs = forEachSpec sequentialSpec sortedPhotos,
      totalDuration =
        (if length sortedPhotos > 0 then (real (length sortedPhotos) - 1) * (35 / 100) + 8 / 10 else 1)\<rparr>"
| "planOfSorted sortedPhotos Shuffle containerWidth containerHeight =
     (let cx = containerWidth / 2 - 110; cy = containerHeight / 2 - 140
      in \<lparr>specs = forEachSpec (shuffleSpec cx cy) sortedPhotos,
          totalDuration =
            max (1 / 2 + (real (length sortedPhotos) - 1) * (12 / 100) + 7 / 10) 1\<rparr>)"
| "planOfSorted sortedPhotos Flip containerWidth containerHeight =
     \<lparr>specs = forEachSpec flipSpec sortedPhotos,
      totalDuration = max ((real (length sortedPhotos) - 1) * (3 / 10) + 6 / 10) 1\<rparr>"
| "planOfSorted sortedPhotos Fade containerWidth containerHeight =
     \<lparr>specs = forEachSpec fadeSpec sortedPhotos,
      totalDuration = max ((real (length sortedPhotos) - 1) * (28 / 100) + 7 / 10) 1\<rparr>"

text \<open>
  \<open>[...photos].sort((a, b) => a.zIndex - b.zIndex)\<close>: \<open>Array.prototype.sort\<close> is a stable
  sort, here ascending in \<open>zIndex\<close>; \<open>sort_key\<close> is the stable insertion sort of the library.
\<close>

definition buildEffectPlan :: "Photo list \<Rightarrow> AnimationEffect \<Rightarrow> real \<Rightarrow> real \<Rightarrow> EffectPlan"
  where
  "buildEffectPlan photos effect containerWidth containerHeight =
     planOfSorted (sort_key photo_zIndex photos) effect containerWidth containerHeight"

section \<open>Frame interpolator (interpolateFrame)\<close>

definition easeOutBack :: "real \<Rightarrow> real" where
  "easeOutBack t =
     (let c1 = 170158 / 100000; c3 = c1 + 1
      in 1 + c3 * (t - 1) ^ 3 + c1 * (t - 1) ^ 2)"

definition easeOutQuart :: "real \<Rightarrow> real" where
  "easeOutQuart t = 1 - (1 - t) ^ 4"

definition lerp :: "real \<Rightarrow> real \<Rightarrow> real \<Rightarrow> real" where
  "lerp a b t = a + (b - a) * t"

text \<open>\<open>const easeFn = effect === "sequential" ? easeOutBack : easeOutQuart\<close>\<close>

definition easeFn :: "AnimationEffect \<Rightarrow> real \<Rightarrow> real" where
  "easeFn effect = (if effect = Sequential then easeOutBack else easeOutQuart)"

text \<open>
  The quotient of two finite numbers in JavaScript: finite when the divisor is not zero,
  an infinity or NaN when it is (the divisor being \<open>+0\<close>).
\<close>

datatype jsnum = Finite real | PosInf | NegInf | NaN

definition js_div :: "real \<Rightarrow> real \<Rightarrow> jsnum" where
  "js_div a b =
     (if b \<noteq> 0 then Finite (a / b)
      else if a > 0 then PosInf else if a < 0 then NegInf else NaN)"

text \<open>\<open>localT <= 0\<close> and \<open>localT >= 1\<close>; every comparison with NaN is false.\<close>

fun js_le_zero :: "jsnum \<Rightarrow> bool" where
  "js_le_zero (Finite l) = (l \<le> 0)"
| "js_le_zero NegInf = True"
| "js_le_zero PosInf = False"
| "js_le_zero NaN = False"

fun js_ge_one :: "jsnum \<Rightarrow> bool" where
  "js_ge_one (Finite l) = (l \<ge> 1)"
| "js_ge_one PosInf = True"
| "js_ge_one NegInf = False"
| "js_ge_one NaN = False"

text \<open>
  An element of the array \<open>interpolateFrame\<close> returns: a state with finite fields, or the
  state whose six numeric fields are all NaN (what the arithmetic of the last branch gives
  when \<open>localT\<close> is NaN).
\<close>

datatype FrameState = State PhotoAnimState | NaNState string

text \<open>The object literal \<open>{ id: spec.photoId, ...fields }\<close>.\<close>

definition withId :: "string \<Rightarrow> AnimFields \<Rightarrow> PhotoAnimState" where
  "withId i s = \<lparr>ps_id = i, ps_x = st_x s, ps_y = st_y s, ps_rotation = st_rotation s,
     ps_opacity = st_opacity s, ps_scale = st_scale s, ps_rotateY = st_rotateY s\<rparr>"

definition interpolated :: "PhotoEnterSpec \<Rightarrow> real \<Rightarrow> PhotoAnimState" where
  "interpolated spec eased =
     \<lparr>ps_id = photoId spec,
      ps_x = lerp (st_x (spec_from spec)) (st_x (spec_to spec)) eased,
      ps_y = lerp (st_y (spec_from spec)) (st_y (spec_to spec)) eased,
      ps_rotation = lerp (st_rotation (spec_from spec)) (st_rotation (spec_to spec)) eased,
      ps_opacity = lerp (st_opacity (spec_from spec)) (st_opacity (spec_to spec)) eased,
      ps_scale = lerp (st_scale (spec_from spec)) (st_scale (spec_to spec)) eased,
      ps_rotateY = lerp (st_rotateY (spec_from spec)) (st_rotateY (spec_to spec)) eased\<rparr>"

text \<open>The callback of \<open>plan.specs.map((spec) => ...)\<close>.\<close>

definition frameOfSpec :: "Photo list \<Rightarrow> real \<Rightarrow> AnimationEffect \<Rightarrow> PhotoEnterSpec \<Rightarrow> FrameState"
  where
  "frameOfSpec photos t effect spec =
     (case find (\<lambda>p. photo_id p = photoId spec) photos of
        None \<Rightarrow> State (withId (photoId spec) (spec_to spec))
      | Some photo \<Rightarrow>
          (let localT = js_div (t - delay spec) (duration spec)
           in if js_le_zero localT then State (withId (photoId spec) (spec_from spec))
              else if js_ge_one localT then State (withId (photoId spec) (spec_to spec))
              else (case localT of
                      Finite l \<Rightarrow> State (interpolated spec (easeFn effect (min l 1)))
                    | _ \<Rightarrow> NaNState (photoId spec))))"

definition interpolateFrame ::
  "EffectPlan \<Rightarrow> Photo list \<Rightarrow> real \<Rightarrow> AnimationEffect \<Rightarrow> FrameState list" where
  "interpolateFrame plan photos t effect = map (frameOfSpec photos t effect) (specs plan)"

section \<open>The planner on an explicit store\<close>

text \<open>
  \<open>buildEffectPlan\<close> receives a reference to an array of references to photo objects. To
  state what the call does to its argument, the store is explicit: \<open>objects\<close> maps a
  reference to the photo object it denotes, \<open>arrays\<close> holds the arrays, an array's
  address being its index, and an array is the list of the references it holds. The local
  array \<open>specs\<close> is private to the call and is returned as a value.
\<close>

record Store =
  objects :: "nat \<Rightarrow> Photo"
  arrays :: "nat list list"

text \<open>\<open>[...photos]\<close>: a new array with the elements of the array at \<open>a\<close>; its address is returned.\<close>

definition spread :: "Store \<Rightarrow> nat \<Rightarrow> nat \<times> Store" where
  "spread h a = (length (arrays h), h\<lparr>arrays := arrays h @ [arrays h ! a]\<rparr>)"

text \<open>\<open>arr.sort((a, b) => a.zIndex - b.zIndex)\<close>: sorts the array at \<open>a\<close> in place.\<close>

definition sortInPlace :: "Store \<Rightarrow> nat \<Rightarrow> Store" where
  "sortInPlace h a =
     h\<lparr>arrays := (arrays h)[a := sort_key (\<lambda>r. photo_zIndex (objects h r)) (arrays h ! a)]\<rparr>"

text \<open>
  The call on the store: the result is the plan and the store after the call. An address
  that is not an array of the store (which a JavaScript reference cannot be) gives \<open>None\<close>.
\<close>

definition buildEffectPlanStore ::
  "Store \<Rightarrow> nat \<Rightarrow> AnimationEffect \<Rightarrow> real \<Rightarrow> real \<Rightarrow> (EffectPlan \<times> Store) option" where
  "buildEffectPlanStore h photos effect containerWidth containerHeight =
     (if photos < length (arrays h) then
        (let (sortedRef, h1) = spread h photos;
             h2 = sortInPlace h1 sortedRef;
             sortedPhotos = map (objects h2) (arrays h2 ! sortedRef)
         in Some (planOfSorted sortedPhotos effect containerWidth containerHeight, h2))
      else None)"

text \<open>
  What \<open>Array.prototype.sort\<close> may return for the comparator \<open>a.zIndex - b.zIndex\<close>,
  whatever the algorithm: a rearrangement of the input that ascends in \<open>zIndex\<close>.
\<close>

definition sortOutcome :: "Photo list \<Rightarrow> Photo list \<Rightarrow> bool" where
  "sortOutcome photos sortedPhotos \<longleftrightarrow>
     mset sortedPhotos = mset photos \<and> sorted (map photo_zIndex sortedPhotos)"

section \<open>Export orchestrator (handleExport in the animation dialog)\<close>

text \<open>
  The state of the dialog that \<open>handleExport\<close> reads: the \<open>isExporting\<close> flag, whether
  \<open>canvasRef.current\<close> is set, the chosen frame rate and playback speed, and the current
  values of \<open>planRef\<close>, \<open>photosRef\<close> and \<open>selectedEffectRef\<close>.
\<close>

record DialogState =
  isExporting :: bool
  canvasPresent :: bool
  fps :: nat
  speed :: real
  planRef :: EffectPlan
  photosRef :: "Photo list"
  selectedEffectRef :: AnimationEffect

text \<open>
  The product and the quotient of two numbers as the machine computes them, in double
  precision with each result rounded. In \<open>handleExport\<close> the rounding of the product decides
  how many frames there are, so the two operations are parameters of its model: what is
  proved of it holds for every pair of operations, the machine's among them.
\<close>

record NumberOps =
  mulOp :: "real \<Rightarrow> real \<Rightarrow> real"
  divOp :: "real \<Rightarrow> real \<Rightarrow> real"

text \<open>
  The frame capture loop. Rendering is outside the program: \<open>capture i states\<close> is the data
  URL that \<open>captureFrame\<close> resolves to in iteration \<open>i\<close> after \<open>applyStatesToDOM(states)\<close>,
  or \<open>None\<close> when it rejects, which ends the loop through the \<open>catch\<close> block.
\<close>

fun captureLoop ::
  "NumberOps \<Rightarrow> (nat \<Rightarrow> FrameState list \<Rightarrow> string option) \<Rightarrow> DialogState \<Rightarrow> nat list
    \<Rightarrow> string list \<Rightarrow> string list option" where
  "captureLoop ops capture ds [] frames = Some frames"
| "captureLoop ops capture ds (i # rest) frames =
     (let t = divOp ops (real i) (real (fps ds));
          states = interpolateFrame (planRef ds) (photosRef ds) t (selectedEffectRef ds)
      in case capture i states of
           None \<Rightarrow> None
         | Some frame \<Rightarrow> captureLoop ops capture ds rest (frames @ [frame]))"

datatype CaptureOutcome = Ignored | CaptureFailed | Captured "string list"

text \<open>
  \<open>handleExport\<close> up to the end of the capture loop; \<open>Captured frames\<close> is the array handed
  to the encoder. \<open>Math.ceil\<close> of the machine's product \<open>currentPlan.totalDuration * fps\<close>
  is an integer, and the loop \<open>for (i = 0; i < frameCount; i++)\<close> runs over the naturals
  below it.
\<close>

definition handleExport ::
  "NumberOps \<Rightarrow> (nat \<Rightarrow> FrameState list \<Rightarrow> string option) \<Rightarrow> DialogState \<Rightarrow> CaptureOutcome"
  where
  "handleExport ops capture ds =
     (if isExporting ds \<or> \<not> canvasPresent ds then Ignored
      else
        (let frameCount = \<lceil>mulOp ops (totalDuration (planRef ds)) (real (fps ds))\<rceil>
         in case captureLoop ops capture ds [0..<nat frameCount] [] of
              None \<Rightarrow> CaptureFailed
            | Some frames \<Rightarrow> Captured frames))"

section \<open>Video encoder (encodeMP4)\<close>

definition avcCodecForSize :: "nat \<Rightarrow> nat \<Rightarrow> string" where
  "avcCodecForSize w h =
     (let area = w * h
      in if area \<le> 921600 then ''avc1.42001f''
         else if area \<le> 2097152 then ''avc1.420029''
         else if area \<le> 9437184 then ''avc1.420033''
         else ''avc1.420034'')"

text \<open>\<open>raw % 2 === 0 ? raw : raw - 1\<close>, on the width and on the height of a bitmap.\<close>

definition evenDimension :: "nat \<Rightarrow> nat" where
  "evenDimension raw = (if raw mod 2 = 0 then raw else raw - 1)"

text \<open>
  What the browser contributes to a run of \<open>encodeMP4\<close>: whether \<open>VideoEncoder\<close> is defined;
  the size of the bitmap a frame decodes to (\<open>None\<close> when \<open>dataUrlToBlob\<close> or
  \<open>createImageBitmap\<close> throws); the answer of \<open>VideoEncoder.isConfigSupported\<close>; and the
  encoder's own progress, which the function only sees across an \<open>await\<close>: during the
  \<open>k\<close>-th suspension the encoder emits \<open>drained k\<close> of its queued frames and calls the
  error callback if \<open>errorAt k\<close>.
\<close>

record Browser =
  hasVideoEncoder :: bool
  bitmapSize :: "string \<Rightarrow> (nat \<times> nat) option"
  isConfigSupported :: "string \<Rightarrow> nat \<Rightarrow> nat \<Rightarrow> bool"
  drained :: "nat \<Rightarrow> nat"
  errorAt :: "nat \<Rightarrow> bool"

text \<open>
  The calls the function makes on the encoder and the muxer, in order. \<open>Poll q\<close> is one
  turn of the back-pressure loop, which saw the queue size \<open>q\<close>; \<open>Encode i q key\<close> is the
  call \<open>encoder.encode\<close> for frame \<open>i\<close>, made when the queue size was \<open>q\<close>, with the
  \<open>keyFrame\<close> flag. Pixel data, timestamps and progress reports are not modelled.
\<close>

datatype EncoderEvent =
  CheckSupported string nat nat
  | Configure string nat nat
  | Poll nat
  | Encode nat nat bool
  | Flush
  | Finalize

record EncoderState =
  queueSize :: nat
  encodeError :: bool
  suspensions :: nat
  events :: "EncoderEvent list"

datatype Mp4Error = WebCodecsUnavailable | DecodeFailed | ResolutionUnsupported nat nat | EncoderError

text \<open>
  \<open>StillWaiting\<close> is a run whose back-pressure loop has not ended within the bound on the
  number of its turns (the loop has no bound of its own).
\<close>

datatype Mp4Outcome = Returned | Thrown Mp4Error | StillWaiting

definition logEvent :: "EncoderEvent \<Rightarrow> EncoderState \<Rightarrow> EncoderState" where
  "logEvent e s = s\<lparr>events := events s @ [e]\<rparr>"

text \<open>One \<open>await\<close>: the encoder runs while the function is suspended.\<close>

definition suspend :: "Browser \<Rightarrow> EncoderState \<Rightarrow> EncoderState" where
  "suspend br s =
     s\<lparr>queueSize := queueSize s - drained br (suspensions s),
       encodeError := encodeError s \<or> errorAt br (suspensions s),
       suspensions := Suc (suspensions s)\<rparr>"

text \<open>
  \<open>while (encoder.encodeQueueSize > 3) await new Promise((r) => setTimeout(r, 8))\<close>, for at
  most \<open>fuel\<close> turns; the flag tells whether the loop has ended.
\<close>

fun waitForDrain :: "Browser \<Rightarrow> nat \<Rightarrow> EncoderState \<Rightarrow> EncoderState \<times> bool" where
  "waitForDrain br 0 s = (s, \<not> queueSize s > 3)"
| "waitForDrain br (Suc fuel) s =
     (if queueSize s > 3
      then waitForDrain br fuel (suspend br (logEvent (Poll (queueSize s)) s))
      else (s, True))"

text \<open>The submission loop \<open>for (let i = 0; i < frames.length; i++)\<close>, from index \<open>i\<close> on.\<close>

fun submitFrames ::
  "Browser \<Rightarrow> nat \<Rightarrow> nat \<Rightarrow> string list \<Rightarrow> EncoderState \<Rightarrow> EncoderState \<times> Mp4Outcome" where
  "submitFrames br fuel i [] s = (s, Returned)"
| "submitFrames br fuel i (frame # rest) s =
     (if encodeError s then (s, Thrown EncoderError)
      else case bitmapSize br frame of
        None \<Rightarrow> (s, Thrown DecodeFailed)
      | Some bitmap \<Rightarrow>
          (case waitForDrain br fuel (suspend br s) of
             (s1, False) \<Rightarrow> (s1, StillWaiting)
           | (s1, True) \<Rightarrow>
               if encodeError s1 then (s1, Thrown EncoderError)
               else
                 (let s2 = logEvent (Encode i (queueSize s1) (i mod 30 = 0)) s1;
                      s3 = s2\<lparr>queueSize := Suc (queueSize s2)\<rparr>
                  in submitFrames br fuel (Suc i) rest (suspend br s3))))"

text \<open>
  \<open>encodeMP4\<close>. The three suspensions before the encoder exists (the import of the muxer,
  the decoding of the first frame, the support check) are counted; \<open>await encoder.flush()\<close>
  is a suspension in which the whole queue is emitted.
\<close>

definition encodeMP4 :: "Browser \<Rightarrow> nat \<Rightarrow> string list \<Rightarrow> EncoderEvent list \<times> Mp4Outcome" where
  "encodeMP4 br fuel frames =
     (if \<not> hasVideoEncoder br then ([], Thrown WebCodecsUnavailable)
      else case frames of
        [] \<Rightarrow> ([], Thrown DecodeFailed)
      | first # _ \<Rightarrow>
          (case bitmapSize br first of
             None \<Rightarrow> ([], Thrown DecodeFailed)
           | Some (rawW, rawH) \<Rightarrow>
               (let encW = evenDimension rawW;
                    encH = evenDimension rawH;
                    codec = avcCodecForSize encW encH;
                    checked = [CheckSupported codec encW encH]
                in if \<not> isConfigSupported br codec encW encH
                   then (checked, Thrown (ResolutionUnsupported encW encH))
                   else
                     (let s0 = \<lparr>queueSize = 0, encodeError = False, suspensions = 3,
                            events = checked @ [Configure codec encW encH]\<rparr>
                      in case submitFrames br fuel 0 frames s0 of
                           (s1, Returned) \<Rightarrow>
                             (let s2 = (suspend br (logEvent Flush s1))\<lparr>queueSize := 0\<rparr>
                              in if encodeError s2 then (events s2, Thrown EncoderError)
                                 else (events s2 @ [Finalize], Returned))
                         | (s1, outcome) \<Rightarrow> (events s1, outcome)))))"

section \<open>Vocabulary of the properties\<close>

text \<open>The opacity of a returned state, when it is a number.\<close>

fun stateOpacity :: "FrameState \<Rightarrow> real option" where
  "stateOpacity (State s) = Some (ps_opacity s)"
| "stateOpacity (NaNState i) = None"

text \<open>
  From \<open>v1\<close> to \<open>v2\<close> a value goes in the direction from \<open>a\<close> to \<open>b\<close> and does not pass \<open>b\<close>.
\<close>

definition movesToward :: "real \<Rightarrow> real \<Rightarrow> real \<Rightarrow> real \<Rightarrow> bool" where
  "movesToward a b v1 v2 \<longleftrightarrow>
     (a \<le> b \<longrightarrow> v1 \<le> v2 \<and> v2 \<le> b) \<and> (b \<le> a \<longrightarrow> v2 \<le> v1 \<and> b \<le> v2)"

text \<open>An event respects the back-pressure threshold: a frame is submitted at a queue size of at most 3.\<close>

fun backpressureOk :: "EncoderEvent \<Rightarrow> bool" where
  "backpressureOk (Encode i q key) = (q \<le> 3)"
| "backpressureOk e = True"

section \<open>Sample inputs\<close>

definition photoA :: Photo where
  "photoA = \<lparr>photo_id = ''a'', photo_url = ''a.png'', photo_x = 100, photo_y = 200,
     photo_rotation = 10, photo_zIndex = 1, photo_scale = 1, photo_width = None,
     photo_height = None, photo_timestamp = 0\<rparr>"

definition photoB :: Photo where
  "photoB = \<lparr>photo_id = ''b'', photo_url = ''b.png'', photo_x = 300, photo_y = 50,
     photo_rotation = - 4, photo_zIndex = 2, photo_scale = 2, photo_width = Some 4,
     photo_height = Some 3, photo_timestamp = 1\<rparr>"

text \<open>
  A plan written by hand, as \<open>interpolateFrame\<close> accepts any: its specs have a duration
  of zero, a negative duration and a negative delay.
\<close>

definition handMadePlan :: EffectPlan where
  "handMadePlan =
     \<lparr>specs =
        [\<lparr>photoId = ''a'', spec_from = defaultFrom\<lparr>st_opacity := 0\<rparr>,
           spec_to = toState photoA, delay = 0, duration = 0\<rparr>,
         \<lparr>photoId = ''a'', spec_from = defaultFrom\<lparr>st_opacity := 0\<rparr>,
           spec_to = toState photoA, delay = 0, duration = - 1\<rparr>,
         \<lparr>photoId = ''a'', spec_from = defaultFrom\<lparr>st_opacity := 0\<rparr>,
           spec_to = toState photoA, delay = - 1, duration = 2\<rparr>],
      totalDuration = 1\<rparr>"

text \<open>
  With one or two photos the fade plan lasts \<open>Math.max(last, 1) = 1\<close> second, and
  \<open>1 * 24\<close> is computed without rounding.
\<close>

definition sampleDialog :: DialogState where
  "sampleDialog = \<lparr>isExporting = False, canvasPresent = True, fps = 24, speed = 2,
     planRef = buildEffectPlan [photoA, photoB] Fade 800 600,
     photosRef = [photoA, photoB], selectedEffectRef = Fade\<rparr>"

definition exactOps :: NumberOps where
  "exactOps = \<lparr>mulOp = (\<lambda>a b. a * b), divOp = (\<lambda>a b. a / b)\<rparr>"

definition sampleCapture :: "nat \<Rightarrow> FrameState list \<Rightarrow> string option" where
  "sampleCapture i states = Some (replicate i (CHR ''f''))"

definition sampleStore :: Store where
  "sampleStore = \<lparr>objects = (\<lambda>r. if r = 0 then photoB else photoA), arrays = [[0, 1]]\<rparr>"

definition slowBrowser :: Browser where
  "slowBrowser = \<lparr>hasVideoEncoder = True, bitmapSize = (\<lambda>frame. Some (641, 480)),
     isConfigSupported = (\<lambda>codec w h. True),
     drained = (\<lambda>k. if k = 0 then 0 else 1), errorAt = (\<lambda>k. False)\<rparr>"

definition largeBrowser :: Browser where
  "largeBrowser = \<lparr>hasVideoEncoder = True, bitmapSize = (\<lambda>frame. Some (4099, 2305)),
     isConfigSupported = (\<lambda>codec w h. False),
     drained = (\<lambda>k. 1), errorAt = (\<lambda>k. False)\<rparr>"

definition queueOfFive :: EncoderState where
  "queueOfFive = \<lparr>queueSize = 5, encodeError = False, suspensions = 0, events = []\<rparr>"

section \<open>Properties of the planner\<close>

lemma nth_forEachSpec: "i < length ps \<Longrightarrow> forEachSpec f ps ! i = f i (ps ! i)"
  by (simp add: forEachSpec_def nth_enumerate_eq)

lemma length_forEachSpec: "length (forEachSpec f ps) = length ps"
  by (simp add: forEachSpec_def)

lemma length_specs_planOfSorted: "length (specs (planOfSorted ps e w h)) = length ps"
  by (cases e) (simp_all add: length_forEachSpec Let_def)

lemma planOfSorted_spec_shape:
  assumes "i < length ps"
  shows "st_opacity (spec_from (specs (planOfSorted ps e w h) ! i)) = 0
    \<and> st_opacity (spec_to (specs (planOfSorted ps e w h) ! i)) = 1
    \<and> 0 < duration (specs (planOfSorted ps e w h) ! i)
    \<and> 0 \<le> delay (specs (planOfSorted ps e w h) ! i)
    \<and> photoId (specs (planOfSorted ps e w h) ! i) = photo_id (ps ! i)
    \<and> spec_to (specs (planOfSorted ps e w h) ! i) = toState (ps ! i)"
  using assms
  by (cases e)
    (simp_all add: nth_forEachSpec Let_def sequentialSpec_def shuffleSpec_def flipSpec_def
      fadeSpec_def defaultFrom_def toState_def)

text \<open>
  Claim C1. The sequential branch has no floor for a non-empty array: for a single photo
  the plan's \<open>totalDuration\<close> is \<open>0 * 0.35 + 0.8 = 0.8\<close>, below the second that the
  other three branches guarantee with \<open>Math.max(last, 1)\<close>.
\<close>

theorem sequential_single_photo_totalDuration:
  "totalDuration (buildEffectPlan [p] Sequential w h) = 8 / 10
    \<and> totalDuration (buildEffectPlan [p] Sequential w h) < 1"
  by (simp add: buildEffectPlan_def)

text \<open>Everywhere else the floor holds.\<close>

lemma totalDuration_floor:
  assumes "photos \<noteq> []" and "effect \<noteq> Sequential \<or> 2 \<le> length photos"
  shows "1 \<le> totalDuration (buildEffectPlan photos effect w h)"
proof (cases effect)
  case Sequential
  then have "2 \<le> real (length photos)" using assms by simp
  then have "1 \<le> (real (length photos) - 1) * (35 / 100) + 8 / 10"
    by (simp add: field_simps)
  then show ?thesis using Sequential assms by (simp add: buildEffectPlan_def)
qed (simp_all add: buildEffectPlan_def Let_def)

section \<open>Properties of the interpolator\<close>

lemma lerp_0: "lerp a b 0 = a"
  by (simp add: lerp_def)

lemma lerp_1: "lerp a b 1 = b"
  by (simp add: lerp_def)

lemma interpolated_0: "interpolated spec 0 = withId (photoId spec) (spec_from spec)"
  by (simp add: interpolated_def withId_def lerp_0)

lemma interpolated_1: "interpolated spec 1 = withId (photoId spec) (spec_to spec)"
  by (simp add: interpolated_def withId_def lerp_1)

lemma easeOutQuart_0: "easeOutQuart 0 = 0"
  by (simp add: easeOutQuart_def)

lemma easeOutQuart_1: "easeOutQuart 1 = 1"
  by (simp add: easeOutQuart_def)

lemma easeOutBack_0: "easeOutBack 0 = 0"
  by (simp add: easeOutBack_def Let_def)

lemma easeOutBack_1: "easeOutBack 1 = 1"
  by (simp add: easeOutBack_def Let_def)

lemma easeFn_0: "easeFn e 0 = 0"
  by (simp add: easeFn_def easeOutQuart_0 easeOutBack_0)

lemma easeFn_1: "easeFn e 1 = 1"
  by (simp add: easeFn_def easeOutQuart_1 easeOutBack_1)

lemma easeOutQuart_mono:
  assumes "0 \<le> a" "a \<le> b" "b \<le> 1"
  shows "easeOutQuart a \<le> easeOutQuart b"
proof -
  have "(1 - b) ^ 4 \<le> (1 - a) ^ 4"
    using assms by (intro power_mono) simp_all
  then show ?thesis by (simp add: easeOutQuart_def)
qed

lemma easeOutQuart_range:
  assumes "0 \<le> l" "l \<le> 1"
  shows "0 \<le> easeOutQuart l \<and> easeOutQuart l \<le> 1"
  using easeOutQuart_mono[of 0 l] easeOutQuart_mono[of l 1] assms
  by (simp add: easeOutQuart_0 easeOutQuart_1)

lemma easeOutBack_nonneg:
  assumes "0 \<le> l" "l \<le> 1"
  shows "0 \<le> easeOutBack l"
proof -
  define u where "u = 1 - l"
  have u: "0 \<le> u" "u \<le> 1" using assms by (simp_all add: u_def)
  have sq: "u ^ 2 \<le> 1" using u by (simp add: power_le_one)
  have "u ^ 3 = u * u ^ 2" by (simp add: power3_eq_cube power2_eq_square)
  also have "\<dots> \<le> 1 * u ^ 2" using u by (intro mult_right_mono) simp_all
  finally have cube: "u ^ 3 \<le> u ^ 2" by simp
  have "easeOutBack l = 1 - (270158 / 100000) * u ^ 3 + (170158 / 100000) * u ^ 2"
  proof -
    have "l - 1 = - u" by (simp add: u_def)
    then show ?thesis by (simp add: easeOutBack_def Let_def)
  qed
  moreover have "(270158 / 100000) * u ^ 3 \<le> (270158 / 100000) * u ^ 2"
    using cube by simp
  ultimately show ?thesis using sq by simp
qed

lemma easeOutBack_half: "easeOutBack (1 / 2) = 10876975 / 10000000"
  by (simp add: easeOutBack_def Let_def power3_eq_cube power2_eq_square)

lemma find_present:
  assumes "photoId spec \<in> photo_id ` set photos"
  shows "\<exists>photo. find (\<lambda>p. photo_id p = photoId spec) photos = Some photo"
proof (cases "find (\<lambda>p. photo_id p = photoId spec) photos")
  case None
  then show ?thesis using assms by (auto simp: find_None_iff)
qed simp

lemma frameOfSpec_before:
  assumes "photoId spec \<in> photo_id ` set photos" "0 < duration spec" "t \<le> delay spec"
  shows "frameOfSpec photos t e spec = State (withId (photoId spec) (spec_from spec))"
proof -
  obtain photo where "find (\<lambda>p. photo_id p = photoId spec) photos = Some photo"
    using find_present[OF assms(1)] by blast
  moreover have "(t - delay spec) / duration spec \<le> 0"
    using assms(2,3) by (simp add: divide_le_0_iff)
  ultimately show ?thesis using assms(2) by (simp add: frameOfSpec_def js_div_def)
qed

lemma frameOfSpec_after:
  assumes "photoId spec \<in> photo_id ` set photos" "0 < duration spec"
    "delay spec + duration spec \<le> t"
  shows "frameOfSpec photos t e spec = State (withId (photoId spec) (spec_to spec))"
proof -
  obtain photo where "find (\<lambda>p. photo_id p = photoId spec) photos = Some photo"
    using find_present[OF assms(1)] by blast
  moreover have "1 \<le> (t - delay spec) / duration spec"
    using assms(2,3) by (simp add: le_divide_eq)
  moreover have "\<not> (t - delay spec) / duration spec \<le> 0"
    using calculation(2) by linarith
  ultimately show ?thesis using assms(2) by (simp add: frameOfSpec_def js_div_def)
qed

lemma frameOfSpec_inside:
  assumes "photoId spec \<in> photo_id ` set photos"
    "delay spec < t" "t < delay spec + duration spec"
  shows "frameOfSpec photos t e spec
    = State (interpolated spec (easeFn e ((t - delay spec) / duration spec)))"
proof -
  obtain photo where "find (\<lambda>p. photo_id p = photoId spec) photos = Some photo"
    using find_present[OF assms(1)] by blast
  moreover have d: "0 < duration spec" using assms(2,3) by linarith
  moreover have "0 < (t - delay spec) / duration spec"
    using assms(2) d by simp
  moreover have "(t - delay spec) / duration spec < 1"
    using assms(3) d by (simp add: divide_less_eq)
  ultimately show ?thesis by (simp add: frameOfSpec_def js_div_def min_def)
qed

lemma frameOfSpec_window:
  assumes "photoId spec \<in> photo_id ` set photos" "0 < duration spec"
    "delay spec \<le> t" "t \<le> delay spec + duration spec"
  shows "frameOfSpec photos t e spec
    = State (interpolated spec (easeFn e ((t - delay spec) / duration spec)))"
proof -
  consider "t = delay spec" | "t = delay spec + duration spec"
    | "delay spec < t" "t < delay spec + duration spec"
    using assms(3,4) by linarith
  then show ?thesis
  proof cases
    case 1
    then show ?thesis
      using frameOfSpec_before[OF assms(1,2), of t e] by (simp add: easeFn_0 interpolated_0)
  next
    case 2
    then show ?thesis
      using frameOfSpec_after[OF assms(1,2), of t e] assms(2)
      by (simp add: easeFn_1 interpolated_1)
  next
    case 3
    then show ?thesis by (rule frameOfSpec_inside[OF assms(1)])
  qed
qed

lemma length_interpolateFrame:
  "length (interpolateFrame plan photos t effect) = length (specs plan)"
  by (simp add: interpolateFrame_def)

lemma find_None_absent: "photoId spec \<notin> photo_id ` set photos \<Longrightarrow>
  find (\<lambda>p. photo_id p = photoId spec) photos = None"
  by (force simp: find_None_iff)



lemma frameOfSpec_absent:
  assumes "photoId spec \<notin> photo_id ` set photos"
  shows "frameOfSpec photos t e spec = State (withId (photoId spec) (spec_to spec))"
  using assms by (simp add: frameOfSpec_def find_None_absent)

lemma frameOfSpec_opacity:
  assumes "st_opacity (spec_from spec) = 0" "st_opacity (spec_to spec) = 1"
    "0 < duration spec"
  shows "\<exists>v. stateOpacity (frameOfSpec photos t e spec) = Some v \<and> 0 \<le> v
    \<and> (e \<noteq> Sequential \<longrightarrow> v \<le> 1)"
proof (cases "photoId spec \<in> photo_id ` set photos")
  case False
  then show ?thesis using assms(2) by (simp add: frameOfSpec_absent withId_def)
next
  case present: True
  consider "t \<le> delay spec" | "delay spec + duration spec \<le> t"
    | "delay spec < t" "t < delay spec + duration spec"
    by linarith
  then show ?thesis
  proof cases
    case 1
    then show ?thesis
      using frameOfSpec_before[OF present assms(3)] assms(1)
      by (simp add: withId_def)
  next
    case 2
    then show ?thesis
      using frameOfSpec_after[OF present assms(3)] assms(2)
      by (simp add: withId_def)
  next
    case 3
    define l where "l = (t - delay spec) / duration spec"
    have l: "0 \<le> l" "l \<le> 1"
      using 3 assms(3) by (simp_all add: l_def divide_le_eq)
    have "stateOpacity (frameOfSpec photos t e spec) = Some (easeFn e l)"
      using frameOfSpec_inside[OF present 3, of e] assms(1,2)
      by (simp add: interpolated_def lerp_def l_def)
    moreover have "0 \<le> easeFn e l"
      using l easeOutBack_nonneg easeOutQuart_range by (simp add: easeFn_def)
    moreover have "e \<noteq> Sequential \<longrightarrow> easeFn e l \<le> 1"
      using l easeOutQuart_range by (simp add: easeFn_def)
    ultimately show ?thesis by blast
  qed
qed

lemma buildEffectPlan_spec_nth:
  assumes "spec \<in> set (specs (buildEffectPlan photos0 effect0 w h))"
  shows "\<exists>i < length (sort_key photo_zIndex photos0).
    spec = specs (planOfSorted (sort_key photo_zIndex photos0) effect0 w h) ! i"
  using assms
  by (metis buildEffectPlan_def in_set_conv_nth length_specs_planOfSorted)

text \<open>
  Claim C2, as amended. For a plan built by \<open>buildEffectPlan\<close>, any photo list, any time
  and any effect, every state \<open>interpolateFrame\<close> returns has a numeric opacity that is at
  least 0, and at most 1 when the effect is shuffle, flip or fade. (Under sequential the
  back-out easing overshoots, and so does the opacity: see the counterexample.)
\<close>

theorem interpolateFrame_opacity_range:
  "\<forall>fs \<in> set (interpolateFrame (buildEffectPlan photos0 effect0 w h) photos t effect).
     \<exists>v. stateOpacity fs = Some v \<and> 0 \<le> v \<and> (effect \<noteq> Sequential \<longrightarrow> v \<le> 1)"
proof
  fix fs
  assume "fs \<in> set (interpolateFrame (buildEffectPlan photos0 effect0 w h) photos t effect)"
  then obtain spec where spec: "spec \<in> set (specs (buildEffectPlan photos0 effect0 w h))"
    and fs: "fs = frameOfSpec photos t effect spec"
    by (auto simp: interpolateFrame_def)
  obtain i where i: "i < length (sort_key photo_zIndex photos0)"
    and eq: "spec = specs (planOfSorted (sort_key photo_zIndex photos0) effect0 w h) ! i"
    using buildEffectPlan_spec_nth[OF spec] by blast
  have "st_opacity (spec_from spec) = 0" "st_opacity (spec_to spec) = 1"
    "0 < duration spec"
    using planOfSorted_spec_shape[OF i, of effect0 w h] unfolding eq by blast+
  then show "\<exists>v. stateOpacity fs = Some v \<and> 0 \<le> v \<and> (effect \<noteq> Sequential \<longrightarrow> v \<le> 1)"
    unfolding fs by (rule frameOfSpec_opacity)
qed

theorem interpolateFrame_opacity_range_witness:
  "interpolateFrame (buildEffectPlan [photoA] Fade 800 600) [photoA] (7 / 20) Fade ! 0
     \<in> set (interpolateFrame (buildEffectPlan [photoA] Fade 800 600) [photoA] (7 / 20) Fade)
   \<and> Fade \<noteq> Sequential
   \<and> (\<exists>v. stateOpacity
        (interpolateFrame (buildEffectPlan [photoA] Fade 800 600) [photoA] (7 / 20) Fade ! 0)
          = Some v \<and> 0 \<le> v \<and> v \<le> 1)"
proof -
  have mem: "interpolateFrame (buildEffectPlan [photoA] Fade 800 600) [photoA] (7 / 20) Fade ! 0
     \<in> set (interpolateFrame (buildEffectPlan [photoA] Fade 800 600) [photoA] (7 / 20) Fade)"
    by (simp add: interpolateFrame_def buildEffectPlan_def forEachSpec_def)
  show ?thesis
    using mem bspec[OF interpolateFrame_opacity_range
        [of "[photoA]" Fade 800 600 "[photoA]" "7 / 20" Fade] mem]
    by simp
qed

text \<open>
  Claim C2 as stated fails under sequential: one photo, \<open>t = 0.4\<close>, half-way through
  its window, where \<open>easeOutBack 0.5 = 1.0876975\<close> is the opacity.
\<close>

theorem opacity_above_one_counterexample:
  "stateOpacity
     (interpolateFrame (buildEffectPlan [photoA] Sequential 800 600) [photoA] (2 / 5)
        Sequential ! 0) = Some (10876975 / 10000000)
   \<and> (1 :: real) < 10876975 / 10000000"
  by (simp add: interpolateFrame_def buildEffectPlan_def forEachSpec_def sequentialSpec_def
      frameOfSpec_def photoA_def js_div_def interpolated_def lerp_def easeFn_def
      easeOutBack_def Let_def defaultFrom_def toState_def power3_eq_cube power2_eq_square)

lemma nth_interpolateFrame:
  "i < length (specs plan) \<Longrightarrow>
    interpolateFrame plan photos t effect ! i = frameOfSpec photos t effect (specs plan ! i)"
  by (simp add: interpolateFrame_def)

lemma buildEffectPlan_timing:
  assumes "i < length (specs (buildEffectPlan photos0 effect0 w h))"
  shows "0 < duration (specs (buildEffectPlan photos0 effect0 w h) ! i)
    \<and> 0 \<le> delay (specs (buildEffectPlan photos0 effect0 w h) ! i)"
proof -
  have i: "i < length (sort_key photo_zIndex photos0)"
    using assms by (simp add: buildEffectPlan_def length_specs_planOfSorted)
  show ?thesis
    using planOfSorted_spec_shape[OF i, of effect0 w h] unfolding buildEffectPlan_def
    by blast
qed

text \<open>
  Claim C3, as amended. \<open>interpolateFrame\<close> returns one state per spec for every plan and
  time, and for a spec with a positive duration whose photo is present: at \<open>t \<le> delay\<close>
  the state is the spec's \<open>from\<close> state and at \<open>t \<ge> delay + duration\<close> its \<open>to\<close> state;
  so at \<open>t = 0\<close> it is the \<open>from\<close> state when the delay is not negative, and at
  \<open>t = totalDuration\<close> the \<open>to\<close> state when \<open>totalDuration \<ge> delay + duration\<close>.
  The sum \<open>delay + duration\<close> is the exact one, of the numbers the spec holds.
\<close>

theorem interpolateFrame_clamps:
  assumes "i < length (specs plan)"
    and "photoId (specs plan ! i) \<in> photo_id ` set photos"
    and "0 < duration (specs plan ! i)"
  shows "length (interpolateFrame plan photos t effect) = length (specs plan)
    \<and> (t \<le> delay (specs plan ! i) \<longrightarrow> interpolateFrame plan photos t effect ! i
          = State (withId (photoId (specs plan ! i)) (spec_from (specs plan ! i))))
    \<and> (delay (specs plan ! i) + duration (specs plan ! i) \<le> t \<longrightarrow>
          interpolateFrame plan photos t effect ! i
          = State (withId (photoId (specs plan ! i)) (spec_to (specs plan ! i))))
    \<and> (0 \<le> delay (specs plan ! i) \<longrightarrow> interpolateFrame plan photos 0 effect ! i
          = State (withId (photoId (specs plan ! i)) (spec_from (specs plan ! i))))
    \<and> (delay (specs plan ! i) + duration (specs plan ! i) \<le> totalDuration plan \<longrightarrow>
          interpolateFrame plan photos (totalDuration plan) effect ! i
          = State (withId (photoId (specs plan ! i)) (spec_to (specs plan ! i))))"
  using frameOfSpec_before[OF assms(2,3)] frameOfSpec_after[OF assms(2,3)] assms(1)
  by (simp add: nth_interpolateFrame length_interpolateFrame)

theorem interpolateFrame_clamps_witness:
  "0 < length (specs (buildEffectPlan [photoA] Fade 800 600))
   \<and> photoId (specs (buildEffectPlan [photoA] Fade 800 600) ! 0) \<in> photo_id ` set [photoA]
   \<and> 0 < duration (specs (buildEffectPlan [photoA] Fade 800 600) ! 0)
   \<and> 0 \<le> delay (specs (buildEffectPlan [photoA] Fade 800 600) ! 0)
   \<and> delay (specs (buildEffectPlan [photoA] Fade 800 600) ! 0)
        + duration (specs (buildEffectPlan [photoA] Fade 800 600) ! 0)
      \<le> totalDuration (buildEffectPlan [photoA] Fade 800 600)
   \<and> totalDuration (buildEffectPlan [photoA] Fade 800 600) = 1
   \<and> interpolateFrame (buildEffectPlan [photoA] Fade 800 600) [photoA] 0 Flip ! 0
      = State \<lparr>ps_id = ''a'', ps_x = 100, ps_y = 200, ps_rotation = 10, ps_opacity = 0,
          ps_scale = 7 / 10, ps_rotateY = 0\<rparr>
   \<and> interpolateFrame (buildEffectPlan [photoA] Fade 800 600) [photoA] 1 Flip ! 0
      = State \<lparr>ps_id = ''a'', ps_x = 100, ps_y = 200, ps_rotation = 10, ps_opacity = 1,
          ps_scale = 1, ps_rotateY = 0\<rparr>"
proof -
  have spec0: "specs (buildEffectPlan [photoA] Fade 800 600) ! 0 = fadeSpec 0 photoA"
    by (simp add: buildEffectPlan_def forEachSpec_def)
  have total: "totalDuration (buildEffectPlan [photoA] Fade 800 600) = 1"
    by (simp add: buildEffectPlan_def)
  have len: "0 < length (specs (buildEffectPlan [photoA] Fade 800 600))"
    by (simp add: buildEffectPlan_def forEachSpec_def)
  have mem: "photoId (specs (buildEffectPlan [photoA] Fade 800 600) ! 0)
      \<in> photo_id ` set [photoA]"
    unfolding spec0 by (simp add: fadeSpec_def)
  have dur: "0 < duration (specs (buildEffectPlan [photoA] Fade 800 600) ! 0)"
    unfolding spec0 by (simp add: fadeSpec_def)
  have del: "0 \<le> delay (specs (buildEffectPlan [photoA] Fade 800 600) ! 0)"
    unfolding spec0 by (simp add: fadeSpec_def)
  have fin: "delay (specs (buildEffectPlan [photoA] Fade 800 600) ! 0)
        + duration (specs (buildEffectPlan [photoA] Fade 800 600) ! 0)
      \<le> totalDuration (buildEffectPlan [photoA] Fade 800 600)"
    unfolding spec0 total by (simp add: fadeSpec_def)
  have fromState: "withId (photoId (fadeSpec 0 photoA)) (spec_from (fadeSpec 0 photoA))
      = \<lparr>ps_id = ''a'', ps_x = 100, ps_y = 200, ps_rotation = 10, ps_opacity = 0,
          ps_scale = 7 / 10, ps_rotateY = 0\<rparr>"
    and toState: "withId (photoId (fadeSpec 0 photoA)) (spec_to (fadeSpec 0 photoA))
      = \<lparr>ps_id = ''a'', ps_x = 100, ps_y = 200, ps_rotation = 10, ps_opacity = 1,
          ps_scale = 1, ps_rotateY = 0\<rparr>"
    by (simp_all add: fadeSpec_def withId_def toState_def photoA_def)
  note clamps = interpolateFrame_clamps[OF len mem dur, of 0 Flip]
  have "interpolateFrame (buildEffectPlan [photoA] Fade 800 600) [photoA] 0 Flip ! 0
      = State (withId (photoId (fadeSpec 0 photoA)) (spec_from (fadeSpec 0 photoA)))"
    and "interpolateFrame (buildEffectPlan [photoA] Fade 800 600) [photoA] 1 Flip ! 0
      = State (withId (photoId (fadeSpec 0 photoA)) (spec_to (fadeSpec 0 photoA)))"
    using clamps del fin unfolding spec0 total by blast+
  then show ?thesis
    using len mem dur del fin total unfolding fromState toState by blast
qed

text \<open>
  Claim C3 as stated fails on \<open>handMadePlan\<close>, with the photo present. At \<open>t = 0 = delay\<close>
  the spec of duration zero yields neither state: \<open>localT\<close> is \<open>0 / 0\<close>, no comparison
  holds and every field is NaN. At \<open>t = -2 \<le> delay\<close> the spec of duration \<open>-1\<close> yields
  its \<open>to\<close> state (\<open>localT = 2\<close>). At \<open>t = 0\<close> the spec of delay \<open>-1\<close> is half-way
  (\<open>localT = 1/2\<close>, opacity \<open>15/16\<close>) and not at its \<open>from\<close> state.
\<close>

theorem interpolateFrame_clamps_counterexample:
  "photoId (specs handMadePlan ! 0) \<in> photo_id ` set [photoA]
   \<and> (0 :: real) \<le> delay (specs handMadePlan ! 0)
   \<and> interpolateFrame handMadePlan [photoA] 0 Fade ! 0 = NaNState ''a''
   \<and> photoId (specs handMadePlan ! 1) \<in> photo_id ` set [photoA]
   \<and> (- 2 :: real) \<le> delay (specs handMadePlan ! 1)
   \<and> interpolateFrame handMadePlan [photoA] (- 2) Fade ! 1
      = State (withId ''a'' (spec_to (specs handMadePlan ! 1)))
   \<and> withId ''a'' (spec_to (specs handMadePlan ! 1))
      \<noteq> withId ''a'' (spec_from (specs handMadePlan ! 1))
   \<and> photoId (specs handMadePlan ! 2) \<in> photo_id ` set [photoA]
   \<and> stateOpacity (interpolateFrame handMadePlan [photoA] 0 Fade ! 2) = Some (15 / 16)
   \<and> stateOpacity (State (withId ''a'' (spec_from (specs handMadePlan ! 2)))) = Some 0"
  by (simp add: handMadePlan_def interpolateFrame_def frameOfSpec_def photoA_def js_div_def
      withId_def toState_def defaultFrom_def interpolated_def lerp_def easeFn_def
      easeOutQuart_def power4_eq_xxxx)

lemma lerp_movesToward:
  assumes "0 \<le> e1" "e1 \<le> e2" "e2 \<le> 1"
  shows "movesToward a b (lerp a b e1) (lerp a b e2)"
proof -
  have up: "(b - a) * e1 \<le> (b - a) * e2 \<and> (b - a) * e2 \<le> b - a" if "a \<le> b"
    using that assms by (simp add: mult_left_mono mult_left_le)
  have down: "(b - a) * e2 \<le> (b - a) * e1 \<and> b - a \<le> (b - a) * e2" if "b \<le> a"
  proof -
    have "(a - b) * e1 \<le> (a - b) * e2 \<and> (a - b) * e2 \<le> a - b"
      using that assms by (simp add: mult_left_mono mult_left_le)
    then show ?thesis by (simp add: algebra_simps)
  qed
  show ?thesis using up down by (auto simp: movesToward_def lerp_def)
qed

lemma localT_bounds:
  fixes t d u :: real
  assumes "d \<le> t" "t \<le> d + u" "0 < u"
  shows "0 \<le> (t - d) / u" "(t - d) / u \<le> 1"
  using assms by (simp_all add: divide_le_eq)

lemma localT_mono:
  fixes t1 t2 d u :: real
  assumes "t1 < t2" "0 < u"
  shows "(t1 - d) / u \<le> (t2 - d) / u"
  using assms by (simp add: divide_right_mono)

text \<open>
  Claim C4. For a spec whose photo is present and times \<open>t1 < t2\<close> in the spec's window
  \<open>[delay, delay + duration]\<close>: under sequential the returned state is the interpolation
  at \<open>easeOutBack localT\<close>, under shuffle, flip and fade at \<open>easeOutQuart localT\<close>, and
  then opacity and scale move from their value at \<open>t1\<close> to their value at \<open>t2\<close> in
  the direction of the \<open>to\<close> value without passing it. \<open>easeOutQuart\<close> is non-decreasing
  on \<open>[0, 1]\<close>; \<open>easeOutBack\<close> is above 1 at \<open>1/2\<close> and is 1 at 1, so it is not monotone.
\<close>

theorem easing_paired_with_effect:
  assumes "i < length (specs plan)"
    and "spec = specs plan ! i"
    and "photoId spec \<in> photo_id ` set photos"
    and "delay spec \<le> t1" and "t1 < t2" and "t2 \<le> delay spec + duration spec"
  shows "interpolateFrame plan photos t1 Sequential ! i
        = State (interpolated spec (easeOutBack ((t1 - delay spec) / duration spec)))
    \<and> (effect \<noteq> Sequential \<longrightarrow>
        interpolateFrame plan photos t1 effect ! i
          = State (interpolated spec (easeOutQuart ((t1 - delay spec) / duration spec)))
        \<and> interpolateFrame plan photos t2 effect ! i
          = State (interpolated spec (easeOutQuart ((t2 - delay spec) / duration spec)))
        \<and> movesToward (st_opacity (spec_from spec)) (st_opacity (spec_to spec))
            (ps_opacity (interpolated spec (easeOutQuart ((t1 - delay spec) / duration spec))))
            (ps_opacity (interpolated spec (easeOutQuart ((t2 - delay spec) / duration spec))))
        \<and> movesToward (st_scale (spec_from spec)) (st_scale (spec_to spec))
            (ps_scale (interpolated spec (easeOutQuart ((t1 - delay spec) / duration spec))))
            (ps_scale (interpolated spec (easeOutQuart ((t2 - delay spec) / duration spec)))))
    \<and> (\<forall>a b. 0 \<le> a \<and> a \<le> b \<and> b \<le> 1 \<longrightarrow> easeOutQuart a \<le> easeOutQuart b)
    \<and> 1 < easeOutBack (1 / 2) \<and> easeOutBack 1 = 1 \<and> easeOutBack 1 < easeOutBack (1 / 2)"
proof -
  have d: "0 < duration spec" using assms(4-6) by linarith
  have w1: "delay spec \<le> t1" "t1 \<le> delay spec + duration spec"
    and w2: "delay spec \<le> t2" "t2 \<le> delay spec + duration spec"
    using assms(4-6) by simp_all
  define l1 where "l1 = (t1 - delay spec) / duration spec"
  define l2 where "l2 = (t2 - delay spec) / duration spec"
  have l: "0 \<le> l1" "l1 \<le> l2" "l2 \<le> 1"
    using localT_bounds[OF w1 d] localT_bounds[OF w2 d] localT_mono[OF assms(5) d]
    by (simp_all add: l1_def l2_def)
  have frame: "interpolateFrame plan photos t e ! i = State (interpolated spec (easeFn e ((t - delay spec) / duration spec)))"
    if "delay spec \<le> t" "t \<le> delay spec + duration spec" for t e
    using frameOfSpec_window[OF assms(3) d that] assms(1,2)
    by (simp add: nth_interpolateFrame)
  have q: "0 \<le> easeOutQuart l1" "easeOutQuart l1 \<le> easeOutQuart l2" "easeOutQuart l2 \<le> 1"
    using l easeOutQuart_range[of l1] easeOutQuart_range[of l2] easeOutQuart_mono[of l1 l2]
    by simp_all
  have seq: "interpolateFrame plan photos t1 Sequential ! i
        = State (interpolated spec (easeOutBack l1))"
    using frame[OF w1, of Sequential] by (simp add: easeFn_def l1_def)
  have quart: "interpolateFrame plan photos t1 effect ! i
          = State (interpolated spec (easeOutQuart l1))"
     "interpolateFrame plan photos t2 effect ! i
          = State (interpolated spec (easeOutQuart l2))" if "effect \<noteq> Sequential"
    using frame[OF w1, of effect] frame[OF w2, of effect] that
    by (simp_all add: easeFn_def l1_def l2_def)
  have mv: "movesToward (st_opacity (spec_from spec)) (st_opacity (spec_to spec))
            (ps_opacity (interpolated spec (easeOutQuart l1)))
            (ps_opacity (interpolated spec (easeOutQuart l2)))"
     "movesToward (st_scale (spec_from spec)) (st_scale (spec_to spec))
            (ps_scale (interpolated spec (easeOutQuart l1)))
            (ps_scale (interpolated spec (easeOutQuart l2)))"
    using lerp_movesToward[OF q] by (simp_all add: interpolated_def)
  have mono: "\<forall>a b. 0 \<le> a \<and> a \<le> b \<and> b \<le> 1 \<longrightarrow> easeOutQuart a \<le> easeOutQuart b"
    using easeOutQuart_mono by blast
  have overshoot: "1 < easeOutBack (1 / 2)" "easeOutBack 1 = 1" "easeOutBack 1 < easeOutBack (1 / 2)"
    by (simp_all add: easeOutBack_half easeOutBack_1)
  show ?thesis
    using seq quart mv mono overshoot unfolding l1_def l2_def by blast
qed

theorem easing_paired_with_effect_witness:
  "0 < length (specs (buildEffectPlan [photoA] Fade 800 600))
   \<and> fadeSpec 0 photoA = specs (buildEffectPlan [photoA] Fade 800 600) ! 0
   \<and> photoId (fadeSpec 0 photoA) \<in> photo_id ` set [photoA]
   \<and> delay (fadeSpec 0 photoA) \<le> 0 \<and> (0 :: real) < 7 / 20
   \<and> 7 / 20 \<le> delay (fadeSpec 0 photoA) + duration (fadeSpec 0 photoA)
   \<and> Fade \<noteq> Sequential
   \<and> (0 \<le> (1 / 4 :: real) \<and> (1 / 4 :: real) \<le> 1 / 2 \<and> (1 / 2 :: real) \<le> 1)
   \<and> interpolateFrame (buildEffectPlan [photoA] Fade 800 600) [photoA] (7 / 20) Fade ! 0
      = State (interpolated (fadeSpec 0 photoA) (15 / 16))
   \<and> movesToward 0 1 0 (15 / 16)
   \<and> easeOutQuart (1 / 4) \<le> easeOutQuart (1 / 2)"
proof -
  have len: "0 < length (specs (buildEffectPlan [photoA] Fade 800 600))"
    and spec: "fadeSpec 0 photoA = specs (buildEffectPlan [photoA] Fade 800 600) ! 0"
    by (simp_all add: buildEffectPlan_def forEachSpec_def)
  have mem: "photoId (fadeSpec 0 photoA) \<in> photo_id ` set [photoA]"
    by (simp add: fadeSpec_def)
  have t1: "delay (fadeSpec 0 photoA) \<le> 0" and lt: "(0 :: real) < 7 / 20"
    and t2: "7 / 20 \<le> delay (fadeSpec 0 photoA) + duration (fadeSpec 0 photoA)"
    by (simp_all add: fadeSpec_def)
  have quart: "easeOutQuart (1 / 2) = 15 / 16"
    by (simp add: easeOutQuart_def power4_eq_xxxx)
  have vals: "delay (fadeSpec 0 photoA) = 0" "duration (fadeSpec 0 photoA) = 7 / 10"
    "ps_opacity (interpolated (fadeSpec 0 photoA) e) = e"
    "st_opacity (spec_from (fadeSpec 0 photoA)) = 0"
    "st_opacity (spec_to (fadeSpec 0 photoA)) = 1" for e
    by (simp_all add: fadeSpec_def interpolated_def lerp_def toState_def)
  note paired = easing_paired_with_effect[OF len spec mem t1 lt t2, of Fade]
  have "\<forall>a b. 0 \<le> a \<and> a \<le> b \<and> b \<le> 1 \<longrightarrow> easeOutQuart a \<le> easeOutQuart b"
    using paired by (elim conjE)
  then have "easeOutQuart (1 / 4) \<le> easeOutQuart (1 / 2)" by simp
  then show ?thesis
    using paired len mem t1 t2
    by (simp add: spec[symmetric] vals quart easeOutQuart_0)
qed

section \<open>Determinism of the planner\<close>

lemma sort_key_sortOutcome: "sortOutcome photos (sort_key photo_zIndex photos)"
  by (simp add: sortOutcome_def)

lemma sorted_distinct_keys_unique:
  fixes f :: "'a \<Rightarrow> 'k :: linorder"
  assumes "mset xs = mset ys" "distinct (map f xs)" "sorted (map f xs)" "sorted (map f ys)"
  shows "xs = ys"
proof -
  have m: "mset (map f xs) = mset (map f ys)" using assms(1) by simp
  then have dy: "distinct (map f ys)" using assms(2) by (metis mset_eq_imp_distinct_iff)
  have "set (map f xs) = set (map f ys)" using m by (metis set_mset_mset)
  then have keys: "map f xs = map f ys"
    using assms(2,3,4) dy by (intro sorted_distinct_set_unique)
  have "inj_on f (set xs \<union> set ys)"
  proof -
    have "set ys = set xs" using assms(1) by (metis set_mset_mset)
    moreover have "inj_on f (set xs)" using assms(2) by (simp add: distinct_map)
    ultimately show ?thesis by simp
  qed
  then show ?thesis using keys by (rule map_inj_on[rotated])
qed

text \<open>
  Claim C5. The planner reads nothing but its four arguments, and the one step whose result
  the language leaves to the implementation, the sort, has a single possible result when the
  \<open>zIndex\<close> values are distinct: any two sort results for the same photos give the same
  plan, which is the plan \<open>buildEffectPlan\<close> returns.
\<close>

theorem buildEffectPlan_deterministic:
  assumes "distinct (map photo_zIndex photos)"
    and "sortOutcome photos sorted1" and "sortOutcome photos sorted2"
  shows "planOfSorted sorted1 effect w h = planOfSorted sorted2 effect w h
    \<and> planOfSorted sorted1 effect w h = buildEffectPlan photos effect w h"
proof -
  have d: "distinct (map photo_zIndex sorted1)"
    using assms(1,2) unfolding sortOutcome_def
    by (metis mset_eq_imp_distinct_iff mset_map)
  have "sorted1 = sorted2"
    using assms(2,3) d unfolding sortOutcome_def
    by (intro sorted_distinct_keys_unique[of _ _ photo_zIndex]) simp_all
  moreover have "sorted1 = sort_key photo_zIndex photos"
    using assms(2) d unfolding sortOutcome_def
    by (intro sorted_distinct_keys_unique[of _ _ photo_zIndex]) simp_all
  ultimately show ?thesis by (simp add: buildEffectPlan_def)
qed

theorem buildEffectPlan_deterministic_witness:
  "distinct (map photo_zIndex [photoB, photoA])
   \<and> sortOutcome [photoB, photoA] [photoA, photoB]
   \<and> planOfSorted [photoA, photoB] Flip 800 600 = buildEffectPlan [photoB, photoA] Flip 800 600"
proof -
  have d: "distinct (map photo_zIndex [photoB, photoA])"
    by (simp add: photoA_def photoB_def)
  have s: "sortOutcome [photoB, photoA] [photoA, photoB]"
    by (simp add: sortOutcome_def photoA_def photoB_def)
  show ?thesis
    using buildEffectPlan_deterministic[OF d s s, of Flip 800 600] d s by simp
qed

section \<open>Properties of the export orchestrator\<close>

lemma captureLoop_succeeds:
  assumes "\<forall>i \<in> set idx. capture i
      (interpolateFrame (planRef ds) (photosRef ds) (divOp ops (real i) (real (fps ds)))
        (selectedEffectRef ds))
    = Some (frame i)"
  shows "captureLoop ops capture ds idx frames = Some (frames @ map frame idx)"
  using assms by (induction idx arbitrary: frames) simp_all

text \<open>
  Claim C6. An export that is not ignored and in which no capture fails captures exactly
  \<open>ceil(totalDuration * fps)\<close> frames, the product being the one the machine computes,
  and the \<open>i\<close>-th frame is the capture of the states interpolated at \<open>t = i / fps\<close>, the
  machine's quotient; the playback speed has no influence on the outcome.
\<close>

theorem handleExport_frames:
  assumes "\<not> isExporting ds" and "canvasPresent ds"
    and "\<forall>i < nat \<lceil>mulOp ops (totalDuration (planRef ds)) (real (fps ds))\<rceil>. capture i
        (interpolateFrame (planRef ds) (photosRef ds) (divOp ops (real i) (real (fps ds)))
          (selectedEffectRef ds))
      = Some (frame i)"
  shows "handleExport ops capture ds
      = Captured (map frame [0..<nat \<lceil>mulOp ops (totalDuration (planRef ds)) (real (fps ds))\<rceil>])
    \<and> handleExport ops capture (ds\<lparr>speed := v\<rparr>) = handleExport ops capture ds"
proof -
  have "captureLoop ops capture ds
      [0..<nat \<lceil>mulOp ops (totalDuration (planRef ds)) (real (fps ds))\<rceil>] []
    = Some ([] @ map frame [0..<nat \<lceil>mulOp ops (totalDuration (planRef ds)) (real (fps ds))\<rceil>])"
    using assms(3) by (intro captureLoop_succeeds) simp
  moreover have "captureLoop ops capture (ds\<lparr>speed := v\<rparr>) idx acc
      = captureLoop ops capture ds idx acc" for idx acc
    by (induction idx arbitrary: acc) (simp_all split: option.split)
  ultimately show ?thesis using assms(1,2) by (simp add: handleExport_def)
qed

theorem handleExport_frames_witness:
  "\<not> isExporting sampleDialog \<and> canvasPresent sampleDialog
   \<and> totalDuration (planRef sampleDialog) = 1
   \<and> nat \<lceil>mulOp exactOps (totalDuration (planRef sampleDialog)) (real (fps sampleDialog))\<rceil>
      = 24
   \<and> handleExport exactOps sampleCapture sampleDialog
      = Captured (map (\<lambda>i. replicate i (CHR ''f'')) [0..<24])"
proof -
  have a: "\<not> isExporting sampleDialog" and b: "canvasPresent sampleDialog"
    by (simp_all add: sampleDialog_def)
  have c: "\<forall>i < nat \<lceil>mulOp exactOps (totalDuration (planRef sampleDialog))
          (real (fps sampleDialog))\<rceil>.
        sampleCapture i (interpolateFrame (planRef sampleDialog) (photosRef sampleDialog)
          (divOp exactOps (real i) (real (fps sampleDialog))) (selectedEffectRef sampleDialog))
        = Some (replicate i (CHR ''f''))"
    by (simp add: sampleCapture_def)
  have d: "totalDuration (planRef sampleDialog) = 1"
    by (simp add: sampleDialog_def buildEffectPlan_def)
  have n: "nat \<lceil>mulOp exactOps (totalDuration (planRef sampleDialog))
      (real (fps sampleDialog))\<rceil> = 24"
    unfolding d by (simp add: sampleDialog_def exactOps_def)
  have "handleExport exactOps sampleCapture sampleDialog
      = Captured (map (\<lambda>i. replicate i (CHR ''f'')) [0..<24])"
    using handleExport_frames[where ds = sampleDialog and capture = sampleCapture
        and ops = exactOps and frame = "\<lambda>i. replicate i (CHR ''f'')" and v = 1, OF a b c]
    unfolding n by blast
  then show ?thesis using a b d n by blast
qed

section \<open>The planner leaves its argument alone\<close>

lemma map_insort_key:
  "map f (insort_key (\<lambda>r. k (f r)) x xs) = insort_key k (f x) (map f xs)"
  by (induction xs) simp_all

lemma map_sort_key: "map f (sort_key (\<lambda>r. k (f r)) xs) = sort_key k (map f xs)"
  by (induction xs) (simp_all add: map_insort_key)

text \<open>
  Claim C10. A call of \<open>buildEffectPlan\<close> on an array of the store returns, and afterwards
  the argument array holds the same references in the same order, as does every array that
  existed before the call (the sort works on a new array), and no photo object has changed;
  the plan is the one the value-level \<open>buildEffectPlan\<close> gives for the photos of the array.
\<close>

theorem buildEffectPlanStore_keeps_argument:
  assumes "photos < length (arrays h)"
  shows "\<exists>plan h'. buildEffectPlanStore h photos effect w hh = Some (plan, h')
    \<and> arrays h' ! photos = arrays h ! photos
    \<and> (\<forall>a < length (arrays h). arrays h' ! a = arrays h ! a)
    \<and> objects h' = objects h
    \<and> plan = buildEffectPlan (map (objects h) (arrays h ! photos)) effect w hh"
  using assms
  by (simp add: buildEffectPlanStore_def spread_def sortInPlace_def Let_def nth_append
      buildEffectPlan_def map_sort_key)

theorem buildEffectPlanStore_keeps_argument_witness:
  "0 < length (arrays sampleStore)
   \<and> buildEffectPlanStore sampleStore 0 Flip 800 600
      = Some (buildEffectPlan [photoB, photoA] Flip 800 600,
          sampleStore\<lparr>arrays := [[0, 1], [1, 0]]\<rparr>)"
proof -
  have a: "0 < length (arrays sampleStore)" by (simp add: sampleStore_def)
  have "buildEffectPlanStore sampleStore 0 Flip 800 600
      = Some (planOfSorted [photoA, photoB] Flip 800 600,
          sampleStore\<lparr>arrays := [[0, 1], [1, 0]]\<rparr>)"
    by (simp add: buildEffectPlanStore_def spread_def sortInPlace_def sampleStore_def
        photoA_def photoB_def)
  then show ?thesis
    using buildEffectPlanStore_keeps_argument[OF a, of Flip 800 600] a
    by (auto simp: sampleStore_def)
qed

section \<open>Properties of the video encoder\<close>

lemma events_suspend: "events (suspend br s) = events s"
  by (simp add: suspend_def)

lemma events_logEvent: "events (logEvent e s) = events s @ [e]"
  by (simp add: logEvent_def)

lemma waitForDrain_events:
  "\<exists>polls. events (fst (waitForDrain br fuel s)) = events s @ map Poll polls"
proof (induction fuel arbitrary: s)
  case 0
  then show ?case by simp
next
  case (Suc fuel)
  show ?case
  proof (cases "queueSize s > 3")
    case True
    obtain polls where "events (fst (waitForDrain br fuel (suspend br (logEvent (Poll (queueSize s)) s))))
      = events (suspend br (logEvent (Poll (queueSize s)) s)) @ map Poll polls"
      using Suc.IH by blast
    then have "events (fst (waitForDrain br (Suc fuel) s))
      = events s @ map Poll (queueSize s # polls)"
      using True by (simp add: events_suspend events_logEvent)
    then show ?thesis by blast
  next
    case False
    then show ?thesis by simp
  qed
qed

lemma waitForDrain_first_poll:
  assumes "3 < queueSize s" "0 < fuel"
  shows "\<exists>polls. events (fst (waitForDrain br fuel s))
    = events s @ Poll (queueSize s) # map Poll polls"
proof -
  obtain n where n: "fuel = Suc n" using assms(2) by (cases fuel) simp_all
  obtain polls where "events (fst (waitForDrain br n (suspend br (logEvent (Poll (queueSize s)) s))))
      = events (suspend br (logEvent (Poll (queueSize s)) s)) @ map Poll polls"
    using waitForDrain_events by blast
  then show ?thesis using assms(1) n by (auto simp: events_suspend events_logEvent)
qed

lemma waitForDrain_done:
  "snd (waitForDrain br fuel s) \<Longrightarrow> queueSize (fst (waitForDrain br fuel s)) \<le> 3"
  by (induction fuel arbitrary: s) (simp_all split: if_splits)

text \<open>
  The loop ends when the encoder keeps emitting: if every suspension takes at least one
  frame off the queue, \<open>queueSize s - 3\<close> turns are enough.
\<close>

lemma waitForDrain_ends:
  assumes "\<forall>k. 1 \<le> drained br k" and "queueSize s - 3 \<le> fuel"
  shows "snd (waitForDrain br fuel s)"
  using assms(2)
proof (induction fuel arbitrary: s)
  case 0
  then show ?case by simp
next
  case (Suc fuel)
  have "queueSize (suspend br (logEvent (Poll (queueSize s)) s)) - 3 \<le> fuel"
    if "3 < queueSize s"
  proof -
    have "1 \<le> drained br (suspensions s)" using assms(1) by blast
    then show ?thesis using Suc.prems that by (simp add: suspend_def logEvent_def)
  qed
  then show ?case using Suc.IH by simp
qed

lemma submitFrames_events:
  "\<exists>new. events (fst (submitFrames br fuel i frames s)) = events s @ new
    \<and> (\<forall>e \<in> set new. backpressureOk e)
    \<and> (\<forall>e \<in> set new. \<exists>a b c. e = Poll a \<or> e = Encode a b c)"
proof (induction frames arbitrary: i s)
  case Nil
  then show ?case by simp
next
  case (Cons frame rest)
  show ?case
  proof (cases "encodeError s \<or> bitmapSize br frame = None")
    case True
    then show ?thesis by auto
  next
    case False
    obtain s1 ended where w: "waitForDrain br fuel (suspend br s) = (s1, ended)"
      by (cases "waitForDrain br fuel (suspend br s)")
    obtain polls where polls: "events s1 = events s @ map Poll polls"
      using waitForDrain_events[of br fuel "suspend br s"] w by (auto simp: events_suspend)
    show ?thesis
    proof (cases "ended \<and> \<not> encodeError s1")
      case stop: False
      have "events (fst (submitFrames br fuel i (frame # rest) s)) = events s @ map Poll polls"
        using False w stop polls by (auto split: bool.splits)
      then show ?thesis by auto
    next
      case True
      then have q: "queueSize s1 \<le> 3" using waitForDrain_done[of br fuel "suspend br s"] w by simp
      define s3 where "s3 = (logEvent (Encode i (queueSize s1) (i mod 30 = 0)) s1)
        \<lparr>queueSize := Suc (queueSize (logEvent (Encode i (queueSize s1) (i mod 30 = 0)) s1))\<rparr>"
      have step: "submitFrames br fuel i (frame # rest) s
        = submitFrames br fuel (Suc i) rest (suspend br s3)"
        using False w True by (auto simp: s3_def Let_def split: bool.splits)
      have ev3: "events (suspend br s3)
        = events s @ map Poll polls @ [Encode i (queueSize s1) (i mod 30 = 0)]"
        by (simp add: s3_def events_suspend events_logEvent polls)
      obtain new where new: "events (fst (submitFrames br fuel (Suc i) rest (suspend br s3)))
          = events (suspend br s3) @ new"
        "\<forall>e \<in> set new. backpressureOk e"
        "\<forall>e \<in> set new. \<exists>a b c. e = Poll a \<or> e = Encode a b c"
        using Cons.IH by blast
      have "events (fst (submitFrames br fuel i (frame # rest) s))
        = events s @ (map Poll polls @ [Encode i (queueSize s1) (i mod 30 = 0)] @ new)"
        using step new(1) ev3 by simp
      moreover have "\<forall>e \<in> set (map Poll polls @ [Encode i (queueSize s1) (i mod 30 = 0)] @ new).
        backpressureOk e"
        using new(2) q by auto
      moreover have "\<forall>e \<in> set (map Poll polls @ [Encode i (queueSize s1) (i mod 30 = 0)] @ new).
        \<exists>a b c. e = Poll a \<or> e = Encode a b c"
        using new(3) by auto
      ultimately show ?thesis by blast
    qed
  qed
qed

lemma encodeMP4_undecoded:
  assumes "\<not> hasVideoEncoder br \<or> frames = [] \<or> bitmapSize br (hd frames) = None"
  shows "fst (encodeMP4 br fuel frames) = []"
  using assms by (auto simp: encodeMP4_def split: list.splits option.splits)

lemma encodeMP4_unsupported:
  assumes "hasVideoEncoder br" "frames = first # rest" "bitmapSize br first = Some (rawW, rawH)"
    and "\<not> isConfigSupported br (avcCodecForSize (evenDimension rawW) (evenDimension rawH))
      (evenDimension rawW) (evenDimension rawH)"
  shows "encodeMP4 br fuel frames
    = ([CheckSupported (avcCodecForSize (evenDimension rawW) (evenDimension rawH))
          (evenDimension rawW) (evenDimension rawH)],
       Thrown (ResolutionUnsupported (evenDimension rawW) (evenDimension rawH)))"
  using assms by (simp add: encodeMP4_def Let_def)

lemma encodeMP4_supported:
  assumes "hasVideoEncoder br" "frames = first # rest" "bitmapSize br first = Some (rawW, rawH)"
    and "isConfigSupported br (avcCodecForSize (evenDimension rawW) (evenDimension rawH))
      (evenDimension rawW) (evenDimension rawH)"
  shows "\<exists>new. fst (encodeMP4 br fuel frames)
      = CheckSupported (avcCodecForSize (evenDimension rawW) (evenDimension rawH))
          (evenDimension rawW) (evenDimension rawH) # new
    \<and> (\<forall>e \<in> set new. backpressureOk e)"
proof -
  define codec where "codec = avcCodecForSize (evenDimension rawW) (evenDimension rawH)"
  define s0 where "s0 = \<lparr>queueSize = 0, encodeError = False, suspensions = 3,
    events = [CheckSupported codec (evenDimension rawW) (evenDimension rawH)]
      @ [Configure codec (evenDimension rawW) (evenDimension rawH)]\<rparr>"
  obtain s1 outcome where run: "submitFrames br fuel 0 frames s0 = (s1, outcome)"
    by (cases "submitFrames br fuel 0 frames s0")
  obtain new where new: "events s1 = events s0 @ new" "\<forall>e \<in> set new. backpressureOk e"
    using submitFrames_events[of br fuel 0 frames s0] run by auto
  have unfold: "encodeMP4 br fuel frames =
    (case (s1, outcome) of
       (s1, Returned) \<Rightarrow>
         (let s2 = (suspend br (logEvent Flush s1))\<lparr>queueSize := 0\<rparr>
          in if encodeError s2 then (events s2, Thrown EncoderError)
             else (events s2 @ [Finalize], Returned))
     | (s1, outcome) \<Rightarrow> (events s1, outcome))"
    using assms run by (simp add: encodeMP4_def Let_def codec_def s0_def)
  have "\<exists>more. fst (encodeMP4 br fuel frames) = events s1 @ more
    \<and> (\<forall>e \<in> set more. backpressureOk e)"
    unfolding unfold
    by (cases outcome) (simp_all add: Let_def events_suspend events_logEvent)
  then obtain more where "fst (encodeMP4 br fuel frames) = events s1 @ more"
    "\<forall>e \<in> set more. backpressureOk e" by blast
  then have "fst (encodeMP4 br fuel frames)
      = CheckSupported codec (evenDimension rawW) (evenDimension rawH)
        # (Configure codec (evenDimension rawW) (evenDimension rawH) # new @ more)"
    "\<forall>e \<in> set (Configure codec (evenDimension rawW) (evenDimension rawH) # new @ more).
      backpressureOk e"
    using new by (simp_all add: s0_def) auto
  then show ?thesis unfolding codec_def by blast
qed

lemma encodeMP4_backpressure: "\<forall>e \<in> set (fst (encodeMP4 br fuel frames)). backpressureOk e"
proof (cases "\<not> hasVideoEncoder br \<or> frames = [] \<or> bitmapSize br (hd frames) = None")
  case True
  then show ?thesis by (simp add: encodeMP4_undecoded)
next
  case False
  then obtain first rest rawW rawH where f: "hasVideoEncoder br" "frames = first # rest"
    "bitmapSize br first = Some (rawW, rawH)"
    by (cases frames) auto
  show ?thesis
  proof (cases "isConfigSupported br (avcCodecForSize (evenDimension rawW) (evenDimension rawH))
      (evenDimension rawW) (evenDimension rawH)")
    case True
    then show ?thesis using encodeMP4_supported[OF f True, of fuel] by auto
  next
    case False
    then show ?thesis using encodeMP4_unsupported[OF f False, of fuel] by simp
  qed
qed

lemma encodeMP4_check_first:
  assumes "Encode i q key \<in> set (fst (encodeMP4 br fuel frames))"
  shows "\<exists>codec w h rest. fst (encodeMP4 br fuel frames) = CheckSupported codec w h # rest
    \<and> isConfigSupported br codec w h"
proof (cases "\<not> hasVideoEncoder br \<or> frames = [] \<or> bitmapSize br (hd frames) = None")
  case True
  then show ?thesis using assms by (simp add: encodeMP4_undecoded)
next
  case False
  then obtain first rest rawW rawH where f: "hasVideoEncoder br" "frames = first # rest"
    "bitmapSize br first = Some (rawW, rawH)"
    by (cases frames) auto
  show ?thesis
  proof (cases "isConfigSupported br (avcCodecForSize (evenDimension rawW) (evenDimension rawH))
      (evenDimension rawW) (evenDimension rawH)")
    case True
    then show ?thesis using encodeMP4_supported[OF f True, of fuel] by blast
  next
    case False
    then show ?thesis using encodeMP4_unsupported[OF f False, of fuel] assms by simp
  qed
qed

lemma evenDimension_greatest:
  "even (evenDimension raw) \<and> evenDimension raw \<le> raw
    \<and> (\<forall>e. even e \<and> e \<le> raw \<longrightarrow> e \<le> evenDimension raw)"
proof -
  have "e \<le> raw - 1" if "even e" "e \<le> raw" "odd raw" for e
  proof -
    have "e \<noteq> raw" using that by auto
    then show ?thesis using that(2) by simp
  qed
  moreover have "even (raw - 1)" if "odd raw"
    using that by simp
  ultimately show ?thesis
    unfolding evenDimension_def even_iff_mod_2_eq_zero[symmetric] by auto
qed

lemma avcCodecForSize_tiers:
  "(w * h \<le> 921600 \<longrightarrow> avcCodecForSize w h = ''avc1.42001f'')
   \<and> (921600 < w * h \<and> w * h \<le> 2097152 \<longrightarrow> avcCodecForSize w h = ''avc1.420029'')
   \<and> (2097152 < w * h \<and> w * h \<le> 9437184 \<longrightarrow> avcCodecForSize w h = ''avc1.420033'')
   \<and> (9437184 < w * h \<longrightarrow> avcCodecForSize w h = ''avc1.420034'')"
  by (simp add: avcCodecForSize_def Let_def)

lemma waitForDrain_unroll:
  "waitForDrain br fuel s =
     (if 3 < queueSize s
      then if fuel = 0 then (s, False)
           else waitForDrain br (fuel - 1) (suspend br (logEvent (Poll (queueSize s)) s))
      else (s, True))"
  by (cases fuel) simp_all

text \<open>
  Claim C8. The encoding width and height are the greatest even numbers not above the raw
  ones; \<open>avcCodecForSize\<close> picks the profile by four tiers of the pixel area, the last
  one, \<open>avc1.420034\<close>, for every area above 9437184; once the first frame is decoded,
  the first thing a run does is the \<open>isConfigSupported\<close> check on that codec and size, and
  a failed check ends the run with the resolution error and nothing else done; a run that
  encodes a frame has begun with a check that succeeded.
\<close>

theorem encodeMP4_dimensions_codec_check:
  "(even (evenDimension raw) \<and> evenDimension raw \<le> raw
      \<and> (\<forall>e. even e \<and> e \<le> raw \<longrightarrow> e \<le> evenDimension raw))
   \<and> ((w * h \<le> 921600 \<longrightarrow> avcCodecForSize w h = ''avc1.42001f'')
      \<and> (921600 < w * h \<and> w * h \<le> 2097152 \<longrightarrow> avcCodecForSize w h = ''avc1.420029'')
      \<and> (2097152 < w * h \<and> w * h \<le> 9437184 \<longrightarrow> avcCodecForSize w h = ''avc1.420033'')
      \<and> (9437184 < w * h \<longrightarrow> avcCodecForSize w h = ''avc1.420034''))
   \<and> (hasVideoEncoder br \<and> frames = first # rest \<and> bitmapSize br first = Some (rawW, rawH) \<longrightarrow>
        (\<exists>more. fst (encodeMP4 br fuel frames)
          = CheckSupported (avcCodecForSize (evenDimension rawW) (evenDimension rawH))
              (evenDimension rawW) (evenDimension rawH) # more)
        \<and> (\<not> isConfigSupported br (avcCodecForSize (evenDimension rawW) (evenDimension rawH))
              (evenDimension rawW) (evenDimension rawH) \<longrightarrow>
            encodeMP4 br fuel frames
            = ([CheckSupported (avcCodecForSize (evenDimension rawW) (evenDimension rawH))
                  (evenDimension rawW) (evenDimension rawH)],
               Thrown (ResolutionUnsupported (evenDimension rawW) (evenDimension rawH)))))
   \<and> (\<forall>i q key. Encode i q key \<in> set (fst (encodeMP4 br fuel frames)) \<longrightarrow>
        (\<exists>codec cw ch more. fst (encodeMP4 br fuel frames) = CheckSupported codec cw ch # more
          \<and> isConfigSupported br codec cw ch))"
proof -
  have check: "(\<exists>more. fst (encodeMP4 br fuel frames)
          = CheckSupported (avcCodecForSize (evenDimension rawW) (evenDimension rawH))
              (evenDimension rawW) (evenDimension rawH) # more)
        \<and> (\<not> isConfigSupported br (avcCodecForSize (evenDimension rawW) (evenDimension rawH))
              (evenDimension rawW) (evenDimension rawH) \<longrightarrow>
            encodeMP4 br fuel frames
            = ([CheckSupported (avcCodecForSize (evenDimension rawW) (evenDimension rawH))
                  (evenDimension rawW) (evenDimension rawH)],
               Thrown (ResolutionUnsupported (evenDimension rawW) (evenDimension rawH))))"
    if f: "hasVideoEncoder br" "frames = first # rest" "bitmapSize br first = Some (rawW, rawH)"
  proof (cases "isConfigSupported br (avcCodecForSize (evenDimension rawW) (evenDimension rawH))
      (evenDimension rawW) (evenDimension rawH)")
    case True
    then show ?thesis using encodeMP4_supported[OF f True, of fuel] by blast
  next
    case False
    then show ?thesis using encodeMP4_unsupported[OF f False, of fuel] by simp
  qed
  show ?thesis
    using evenDimension_greatest[of raw] avcCodecForSize_tiers[of w h] check
      encodeMP4_check_first[of _ _ _ br fuel frames]
    by blast
qed

theorem encodeMP4_dimensions_codec_check_witness:
  "hasVideoEncoder largeBrowser \<and> bitmapSize largeBrowser ''f0'' = Some (4099, 2305)
   \<and> evenDimension 4099 = 4098 \<and> evenDimension 2305 = 2304
   \<and> (9437184 :: nat) < 4098 * 2304
   \<and> avcCodecForSize 4098 2304 = ''avc1.420034''
   \<and> \<not> isConfigSupported largeBrowser ''avc1.420034'' 4098 2304
   \<and> encodeMP4 largeBrowser 5 [''f0'', ''f1'']
      = ([CheckSupported ''avc1.420034'' 4098 2304], Thrown (ResolutionUnsupported 4098 2304))
   \<and> Encode 0 0 True \<in> set (fst (encodeMP4 slowBrowser 5 [''f0'']))
   \<and> fst (encodeMP4 slowBrowser 5 [''f0''])
      = [CheckSupported ''avc1.42001f'' 640 480, Configure ''avc1.42001f'' 640 480,
         Encode 0 0 True, Flush, Finalize]
   \<and> isConfigSupported slowBrowser ''avc1.42001f'' 640 480"
proof -
  have dims: "evenDimension 4099 = 4098" "evenDimension 2305 = 2304"
    "evenDimension 641 = 640" "evenDimension 480 = 480"
    by (simp_all add: evenDimension_def)
  have codec: "avcCodecForSize 4098 2304 = ''avc1.420034''"
    "avcCodecForSize 640 480 = ''avc1.42001f''"
    by (simp_all add: avcCodecForSize_def)
  have run: "fst (encodeMP4 slowBrowser 5 [''f0''])
      = [CheckSupported ''avc1.42001f'' 640 480, Configure ''avc1.42001f'' 640 480,
         Encode 0 0 True, Flush, Finalize]"
    by (simp add: encodeMP4_def slowBrowser_def dims codec waitForDrain_unroll suspend_def
        logEvent_def Let_def)
  have large: "hasVideoEncoder largeBrowser \<and> [''f0'', ''f1''] = ''f0'' # [''f1'']
      \<and> bitmapSize largeBrowser ''f0'' = Some (4099, 2305)"
    by (simp add: largeBrowser_def)
  have unsupported: "\<not> isConfigSupported largeBrowser ''avc1.420034'' 4098 2304"
    by (simp add: largeBrowser_def)
  have area: "(9437184 :: nat) < 4098 * 2304" by simp
  have encoded: "Encode 0 0 True \<in> set (fst (encodeMP4 slowBrowser 5 [''f0'']))"
    by (simp add: run)
  have supported: "isConfigSupported slowBrowser ''avc1.42001f'' 640 480"
    by (simp add: slowBrowser_def)
  have "encodeMP4 largeBrowser 5 [''f0'', ''f1'']
      = ([CheckSupported ''avc1.420034'' 4098 2304], Thrown (ResolutionUnsupported 4098 2304))"
    using encodeMP4_dimensions_codec_check[of 4099 4098 2304 largeBrowser "[''f0'', ''f1'']"
        "''f0''" "[''f1'']" 4099 2305 5] large unsupported
    unfolding dims codec by blast
  then show ?thesis
    using large unsupported area encoded supported run dims codec by blast
qed

text \<open>
  Claim C9. Whatever the encoder does and from whatever state the submission loop starts,
  every \<open>encoder.encode\<close> call it makes, and every one a run of \<open>encodeMP4\<close> makes,
  happens at a queue size of at most 3; the back-pressure loop, when it ends, ends at a
  queue size of at most 3, and entered above 3 it polls before anything else (so from a
  queue of 5 it polls until the queue is down to 3 and only then is the frame submitted).
\<close>

theorem submission_backpressure:
  "(\<exists>new. events (fst (submitFrames br fuel i frames s)) = events s @ new
      \<and> (\<forall>e \<in> set new. backpressureOk e))
   \<and> (\<forall>e \<in> set (fst (encodeMP4 br fuel frames)). backpressureOk e)
   \<and> (snd (waitForDrain br fuel s) \<longrightarrow> queueSize (fst (waitForDrain br fuel s)) \<le> 3)
   \<and> (3 < queueSize s \<and> 0 < fuel \<longrightarrow>
        (\<exists>polls. events (fst (waitForDrain br fuel s))
          = events s @ Poll (queueSize s) # map Poll polls))"
  using submitFrames_events[of br fuel i frames s] encodeMP4_backpressure[of br fuel frames]
    waitForDrain_done[of br fuel s] waitForDrain_first_poll[of s fuel br]
  by blast

theorem submission_backpressure_witness:
  "3 < queueSize queueOfFive \<and> 0 < (5 :: nat)
   \<and> snd (waitForDrain slowBrowser 5 queueOfFive)
   \<and> queueSize (fst (waitForDrain slowBrowser 5 queueOfFive)) = 3
   \<and> events (fst (waitForDrain slowBrowser 5 queueOfFive)) = [Poll 5, Poll 5, Poll 4]
   \<and> events (fst (submitFrames slowBrowser 5 0 [''f0''] queueOfFive))
      = [Poll 5, Poll 4, Encode 0 3 True]
   \<and> backpressureOk (Encode 0 3 True)"
proof -
  have w: "waitForDrain slowBrowser 5 queueOfFive
    = (\<lparr>queueSize = 3, encodeError = False, suspensions = 3,
        events = [Poll 5, Poll 5, Poll 4]\<rparr>, True)"
    by (simp add: queueOfFive_def slowBrowser_def waitForDrain_unroll suspend_def
        logEvent_def)
  have r: "events (fst (submitFrames slowBrowser 5 0 [''f0''] queueOfFive))
      = [Poll 5, Poll 4, Encode 0 3 True]"
    by (simp add: queueOfFive_def slowBrowser_def waitForDrain_unroll suspend_def
        logEvent_def Let_def)
  have q: "3 < queueSize queueOfFive" and fuel: "0 < (5 :: nat)"
    by (simp_all add: queueOfFive_def)
  have ended: "snd (waitForDrain slowBrowser 5 queueOfFive)"
    and size: "queueSize (fst (waitForDrain slowBrowser 5 queueOfFive)) = 3"
    and polls: "events (fst (waitForDrain slowBrowser 5 queueOfFive)) = [Poll 5, Poll 5, Poll 4]"
    and ok: "backpressureOk (Encode 0 3 True)"
    by (simp_all add: w)
  have "queueSize (fst (waitForDrain slowBrowser 5 queueOfFive)) \<le> 3"
    using submission_backpressure[of slowBrowser 5 0 "[''f0'']" queueOfFive] ended by blast
  then show ?thesis
    using q fuel ended size polls r ok by blast
qed

end
